theory Spec2Isabelle
  imports Main "HOL-Library.Multiset"
begin

section \<open>The built-in Map: an insertion-ordered association list\<close>

text \<open>
  Both classes keep their data in ECMAScript \<open>Map\<close> objects. A \<open>Map\<close> iterates in insertion
  order, \<open>set\<close> on a key that is present replaces the value in place, \<open>set\<close> on a new key
  appends, and \<open>delete\<close> reports whether the key was there. The model is a list of
  key/value pairs in insertion order. Keys and values are compared with HOL equality, which
  stands for the comparison of primitives and of object references that \<open>Map\<close>,
  \<open>Array.prototype.includes\<close> and \<open>===\<close> perform (the value \<open>NaN\<close>, on which \<open>===\<close> differs
  from the other two, is outside the model).
\<close>

type_synonym ('k, 'v) jsmap = "('k \<times> 'v) list"

fun jsmap_set :: "'k \<Rightarrow> 'v \<Rightarrow> ('k, 'v) jsmap \<Rightarrow> ('k, 'v) jsmap" where
  "jsmap_set k v [] = [(k, v)]"
| "jsmap_set k v ((k', v') # m) =
     (if k' = k then (k, v) # m else (k', v') # jsmap_set k v m)"

definition jsmap_get :: "('k, 'v) jsmap \<Rightarrow> 'k \<Rightarrow> 'v option" where
  "jsmap_get m k = map_of m k"

definition jsmap_has :: "('k, 'v) jsmap \<Rightarrow> 'k \<Rightarrow> bool" where
  "jsmap_has m k = (k \<in> set (map fst m))"

definition jsmap_delete :: "'k \<Rightarrow> ('k, 'v) jsmap \<Rightarrow> bool \<times> ('k, 'v) jsmap" where
  "jsmap_delete k m = (jsmap_has m k, filter (\<lambda>e. fst e \<noteq> k) m)"

definition jsmap_size :: "('k, 'v) jsmap \<Rightarrow> nat" where
  "jsmap_size m = length m"

text \<open>\<open>Array.prototype.forEach\<close>: the function is called on every element, in order; what
  it returns is discarded. The state \<open>'s\<close> is whatever the function acts on.\<close>

fun array_forEach :: "('a \<Rightarrow> 's \<Rightarrow> 's) \<Rightarrow> 'a list \<Rightarrow> 's \<Rightarrow> 's" where
  "array_forEach f [] s = s"
| "array_forEach f (x # xs) s = array_forEach f xs (f x s)"

text \<open>\<open>Array.prototype.join\<close> on elements that are already strings.\<close>

fun js_join :: "string \<Rightarrow> string list \<Rightarrow> string" where
  "js_join sep [] = []"
| "js_join sep [x] = x"
| "js_join sep (x # y # xs) = x @ sep @ js_join sep (y # xs)"


section \<open>MultiValueMap\<close>

text \<open>The class has the single private field \<open>map\<close>, a \<open>Map<K, V[]>\<close>.\<close>

type_synonym ('k, 'v) MultiValueMap = "('k, 'v list) jsmap"

definition mvm_get :: "('k, 'v) MultiValueMap \<Rightarrow> 'k \<Rightarrow> 'v list option" where
  "mvm_get m key = jsmap_get m key"

definition mvm_set :: "('k, 'v) MultiValueMap \<Rightarrow> 'k \<Rightarrow> 'v list \<Rightarrow> ('k, 'v) MultiValueMap" where
  "mvm_set m key vals = jsmap_set key vals m"

definition mvm_clear :: "('k, 'v) MultiValueMap \<Rightarrow> ('k, 'v) MultiValueMap" where
  "mvm_clear m = []"

definition mvm_keys :: "('k, 'v) MultiValueMap \<Rightarrow> 'k list" where
  "mvm_keys m = map fst m"

definition mvm_values :: "('k, 'v) MultiValueMap \<Rightarrow> 'v list list" where
  "mvm_values m = map snd m"

definition mvm_entries :: "('k, 'v) MultiValueMap \<Rightarrow> ('k \<times> 'v list) list" where
  "mvm_entries m = m"

definition mvm_size :: "('k, 'v) MultiValueMap \<Rightarrow> nat" where
  "mvm_size m = jsmap_size m"

definition mvm_deleteByKey :: "('k, 'v) MultiValueMap \<Rightarrow> 'k \<Rightarrow> bool \<times> ('k, 'v) MultiValueMap" where
  "mvm_deleteByKey m key = jsmap_delete key m"

text \<open>
  \<open>deleteByKeys\<close>: the loop body is \<open>result = result || this.map.delete(key)\<close>. The operator
  \<open>||\<close> evaluates its right operand only when the left one is false, so once \<open>result\<close> is
  true the call of \<open>delete\<close> is not made.
\<close>

fun mvm_deleteByKeys_loop ::
  "'k list \<Rightarrow> bool \<Rightarrow> ('k, 'v) MultiValueMap \<Rightarrow> bool \<times> ('k, 'v) MultiValueMap" where
  "mvm_deleteByKeys_loop [] result m = (result, m)"
| "mvm_deleteByKeys_loop (key # keys) result m =
     (if result then mvm_deleteByKeys_loop keys result m
      else (case jsmap_delete key m of (d, m') \<Rightarrow> mvm_deleteByKeys_loop keys d m'))"

definition mvm_deleteByKeys ::
  "('k, 'v) MultiValueMap \<Rightarrow> 'k list \<Rightarrow> bool \<times> ('k, 'v) MultiValueMap" where
  "mvm_deleteByKeys m keys =
     (if length keys = 0 \<or> mvm_size m = 0 then (False, m)
      else mvm_deleteByKeys_loop keys False m)"

text \<open>
  \<open>deleteByValue\<close>: the loop runs over the snapshot \<open>this.entries()\<close>; in its body
  \<open>result = result || this.map.delete(key)\<close> the same short-circuit applies.
\<close>

fun mvm_deleteByValue_loop ::
  "'v \<Rightarrow> ('k \<times> 'v list) list \<Rightarrow> bool \<Rightarrow> ('k, 'v) MultiValueMap \<Rightarrow> bool \<times> ('k, 'v) MultiValueMap" where
  "mvm_deleteByValue_loop val [] result m = (result, m)"
| "mvm_deleteByValue_loop val ((key, vals) # rest) result m =
     (if val \<in> set vals
      then (if result then mvm_deleteByValue_loop val rest result m
            else (case jsmap_delete key m of (d, m') \<Rightarrow> mvm_deleteByValue_loop val rest d m'))
      else mvm_deleteByValue_loop val rest result m)"

definition mvm_deleteByValue ::
  "('k, 'v) MultiValueMap \<Rightarrow> 'v \<Rightarrow> bool \<times> ('k, 'v) MultiValueMap" where
  "mvm_deleteByValue m val =
     (if mvm_size m = 0 then (False, m)
      else mvm_deleteByValue_loop val (mvm_entries m) False m)"

fun mvm_deleteByValues_loop ::
  "'v list \<Rightarrow> bool \<Rightarrow> ('k, 'v) MultiValueMap \<Rightarrow> bool \<times> ('k, 'v) MultiValueMap" where
  "mvm_deleteByValues_loop [] result m = (result, m)"
| "mvm_deleteByValues_loop (val # vals) result m =
     (if result then mvm_deleteByValues_loop vals result m
      else (case mvm_deleteByValue m val of (d, m') \<Rightarrow> mvm_deleteByValues_loop vals d m'))"

definition mvm_deleteByValues ::
  "('k, 'v) MultiValueMap \<Rightarrow> 'v list \<Rightarrow> bool \<times> ('k, 'v) MultiValueMap" where
  "mvm_deleteByValues m vals =
     (if length vals = 0 \<or> mvm_size m = 0 then (False, m)
      else mvm_deleteByValues_loop vals False m)"

definition mvm_hasKey :: "('k, 'v) MultiValueMap \<Rightarrow> 'k \<Rightarrow> bool" where
  "mvm_hasKey m key = jsmap_has m key"





text \<open>
  \<open>hasValue(values, exact)\<close>. The inner loop carries \<open>result\<close> through the candidate values
  and leaves at the first false; the outer loop returns true at the first stored array on
  which the inner loop ends with true.
\<close>

fun mvm_hasValue_inner :: "'v list \<Rightarrow> 'v list \<Rightarrow> bool \<Rightarrow> bool \<Rightarrow> 'v list \<Rightarrow> bool" where
  "mvm_hasValue_inner array vals exact result [] = result"
| "mvm_hasValue_inner array vals exact result (v # vs) =
     (let result' = (result \<and> v \<in> set array
                       \<and> (if exact then length array = length vals else True))
      in if \<not> result' then result' else mvm_hasValue_inner array vals exact result' vs)"

fun mvm_hasValue_outer :: "'v list \<Rightarrow> bool \<Rightarrow> 'v list list \<Rightarrow> bool" where
  "mvm_hasValue_outer vals exact [] = False"
| "mvm_hasValue_outer vals exact (array # arrays) =
     (if mvm_hasValue_inner array vals exact True vals then True
      else mvm_hasValue_outer vals exact arrays)"

definition mvm_hasValue :: "('k, 'v) MultiValueMap \<Rightarrow> 'v list \<Rightarrow> bool \<Rightarrow> bool" where
  "mvm_hasValue m vals exact =
     (if length vals = 0 \<or> mvm_size m = 0 then False
      else mvm_hasValue_outer vals exact (map snd m))"


text \<open>
  Modelled from the spec: \<open>MultiValueMap.hasAnyValues\<close> is called by the read-only wrapper and
  by the tests, but the source of \<open>MultiValueMap\<close> does not define it. The spec: "apply
  \<open>hasValue(..., exact=true)\<close> across multiple candidate sequences, short-circuiting on first
  true".
\<close>

fun mvm_hasAnyValues :: "('k, 'v) MultiValueMap \<Rightarrow> 'v list list \<Rightarrow> bool" where
  "mvm_hasAnyValues m [] = False"
| "mvm_hasAnyValues m (vals # rest) =
     (if mvm_hasValue m vals True then True else mvm_hasAnyValues m rest)"

text \<open>
  Modelled from the spec: \<open>MultiValueMap.hasAllValues\<close> is called by the read-only wrapper and
  by the tests, but the source of \<open>MultiValueMap\<close> does not define it. The spec: "apply
  \<open>hasValue(..., exact=true)\<close> across multiple candidate sequences, short-circuiting on first
  false".
\<close>

fun mvm_hasAllValues :: "('k, 'v) MultiValueMap \<Rightarrow> 'v list list \<Rightarrow> bool" where
  "mvm_hasAllValues m [] = True"
| "mvm_hasAllValues m (vals # rest) =
     (if \<not> mvm_hasValue m vals True then False else mvm_hasAllValues m rest)"


section \<open>MultiKeyMap\<close>

text \<open>
  The class has two private fields: \<open>keysMap\<close>, a \<open>MultiValueMap<string, K>\<close> from the hash
  of a key sequence to the sequence, and \<open>valueMap\<close>, a \<open>Map<string, V>\<close> from the same hash
  to the value. The hash function \<open>objectHash\<close> of the package \<open>object-hash\<close> is not part of
  the repository: every operation that hashes takes it as the parameter \<open>H\<close>.
\<close>

record ('k, 'v) MultiKeyMap =
  keysMap :: "(string, 'k) MultiValueMap"
  valueMap :: "(string, 'v) jsmap"

definition mkm_empty :: "('k, 'v) MultiKeyMap" where
  "mkm_empty = \<lparr>keysMap = [], valueMap = []\<rparr>"

definition mkm_get :: "('k list \<Rightarrow> string) \<Rightarrow> ('k, 'v) MultiKeyMap \<Rightarrow> 'k list \<Rightarrow> 'v option" where
  "mkm_get H m keys =
     (if length keys = 0 then None
      else (let hash = H keys in jsmap_get (valueMap m) hash))"

definition mkm_set ::
  "('k list \<Rightarrow> string) \<Rightarrow> ('k, 'v) MultiKeyMap \<Rightarrow> 'k list \<Rightarrow> 'v \<Rightarrow> ('k, 'v) MultiKeyMap" where
  "mkm_set H m keys val =
     (if length keys = 0 then m
      else (let hash = H keys in
            \<lparr>keysMap = mvm_set (keysMap m) hash keys,
             valueMap = jsmap_set hash val (valueMap m)\<rparr>))"

text \<open>The constructor (and the static \<open>of\<close>): \<open>set\<close> for every entry, in order; absent
  entries are the empty list.\<close>

definition mkm_of :: "('k list \<Rightarrow> string) \<Rightarrow> ('k list \<times> 'v) list \<Rightarrow> ('k, 'v) MultiKeyMap" where
  "mkm_of H entries = array_forEach (\<lambda>(keys, val) m. mkm_set H m keys val) entries mkm_empty"

definition mkm_clear :: "('k, 'v) MultiKeyMap \<Rightarrow> ('k, 'v) MultiKeyMap" where
  "mkm_clear m = \<lparr>keysMap = mvm_clear (keysMap m), valueMap = []\<rparr>"



definition mkm_entries :: "('k, 'v) MultiKeyMap \<Rightarrow> ('k list \<times> 'v) list" where
  "mkm_entries m =
     (if jsmap_size (valueMap m) = 0 then []
      else map (\<lambda>(k, val). (case mvm_get (keysMap m) k of None \<Rightarrow> [] | Some ks \<Rightarrow> ks, val))
             (valueMap m))"

definition mkm_deleteByKey ::
  "('k list \<Rightarrow> string) \<Rightarrow> ('k, 'v) MultiKeyMap \<Rightarrow> 'k list \<Rightarrow> bool \<times> ('k, 'v) MultiKeyMap" where
  "mkm_deleteByKey H m keys =
     (if length keys = 0 then (False, m)
      else (let hash = H keys in
            if \<not> jsmap_has (valueMap m) hash then (False, m)
            else (True, \<lparr>keysMap = snd (mvm_deleteByKey (keysMap m) hash),
                         valueMap = snd (jsmap_delete hash (valueMap m))\<rparr>)))"


text \<open>
  \<open>deleteByValue\<close>: the loop iterates \<open>this.valueMap.entries()\<close> and deletes, from both
  maps, the entry it is visiting when its value is \<open>===\<close> the argument. Only the visited
  entry is ever deleted, so the iterator visits exactly the entries the map held when the
  loop began, in their order: the recursion runs over that list.
\<close>

fun mkm_deleteByValue_loop ::
  "'v \<Rightarrow> (string \<times> 'v) list \<Rightarrow> bool \<Rightarrow> ('k, 'v) MultiKeyMap \<Rightarrow> bool \<times> ('k, 'v) MultiKeyMap" where
  "mkm_deleteByValue_loop val [] result m = (result, m)"
| "mkm_deleteByValue_loop val ((k, v) # rest) result m =
     (if v = val
      then mkm_deleteByValue_loop val rest True
             \<lparr>keysMap = snd (mvm_deleteByKey (keysMap m) k),
              valueMap = snd (jsmap_delete k (valueMap m))\<rparr>
      else mkm_deleteByValue_loop val rest result m)"

definition mkm_deleteByValue ::
  "('k, 'v) MultiKeyMap \<Rightarrow> 'v \<Rightarrow> bool \<times> ('k, 'v) MultiKeyMap" where
  "mkm_deleteByValue m val =
     (if jsmap_size (valueMap m) = 0 then (False, m)
      else mkm_deleteByValue_loop val (valueMap m) False m)"

fun mkm_deleteByValues_loop ::
  "'v list \<Rightarrow> bool \<Rightarrow> ('k, 'v) MultiKeyMap \<Rightarrow> bool \<times> ('k, 'v) MultiKeyMap" where
  "mkm_deleteByValues_loop [] result m = (result, m)"
| "mkm_deleteByValues_loop (val # vals) result m =
     (if result then mkm_deleteByValues_loop vals result m
      else (case mkm_deleteByValue m val of (d, m') \<Rightarrow> mkm_deleteByValues_loop vals d m'))"

definition mkm_deleteByValues ::
  "('k, 'v) MultiKeyMap \<Rightarrow> 'v list \<Rightarrow> bool \<times> ('k, 'v) MultiKeyMap" where
  "mkm_deleteByValues m vals =
     (if length vals = 0 \<or> jsmap_size (valueMap m) = 0 then (False, m)
      else mkm_deleteByValues_loop vals False m)"

text \<open>\<open>hasKey\<close> asks the key store for the key sequence as a value, with \<open>exact\<close> left at its
  default \<open>true\<close>.\<close>

definition mkm_hasKey :: "('k, 'v) MultiKeyMap \<Rightarrow> 'k list \<Rightarrow> bool" where
  "mkm_hasKey m keys = (length keys > 0 \<and> mvm_hasValue (keysMap m) keys True)"










text \<open>The iterator of the map is the iterator of the array \<open>this.entries()\<close>.\<close>

definition mkm_iterator :: "('k, 'v) MultiKeyMap \<Rightarrow> ('k list \<times> 'v) list" where
  "mkm_iterator m = mkm_entries m"

text \<open>
  \<open>toString\<close> treats each entry as the two-element array \<open>[keys, value]\<close> that it is: the
  elements of such an array are the key sequence and the value. Past the length test,
  \<open>entry.slice(0, -1)\<close> is the array without its last element and
  \<open>entry[entry.length - 1]\<close> is the last element. \<open>join()\<close> separates with a comma and turns
  an element that is itself an array into the \<open>join()\<close> of that array. How a single key part
  becomes a string inside \<open>join\<close>, and how a value becomes a string inside the template
  literal, are the parameters \<open>strK\<close> and \<open>strV\<close>.
\<close>

datatype ('k, 'v) element = Keys "'k list" | Value 'v

fun element_toString :: "('k \<Rightarrow> string) \<Rightarrow> ('v \<Rightarrow> string) \<Rightarrow> ('k, 'v) element \<Rightarrow> string" where
  "element_toString strK strV (Keys ks) = js_join '','' (map strK ks)"
| "element_toString strK strV (Value v) = strV v"

definition mkm_entry_toString ::
  "('k \<Rightarrow> string) \<Rightarrow> ('v \<Rightarrow> string) \<Rightarrow> ('k, 'v) element list \<Rightarrow> string" where
  "mkm_entry_toString strK strV entry =
     (case (if length entry \<le> 1 then ([], hd entry) else (butlast entry, last entry)) of
        (keys, val) \<Rightarrow>
          ''['' @ js_join '','' (map (element_toString strK strV) keys) @ '']:''
            @ element_toString strK strV val)"

definition mkm_toString ::
  "('k \<Rightarrow> string) \<Rightarrow> ('v \<Rightarrow> string) \<Rightarrow> ('k, 'v) MultiKeyMap \<Rightarrow> string" where
  "mkm_toString strK strV m =
     js_join '';''
       (map (\<lambda>(ks, v). mkm_entry_toString strK strV [Keys ks, Value v]) (mkm_iterator m))"

text \<open>The mutating public operations, and a run of them from a constructed map.\<close>

datatype ('k, 'v) operation =
    Set "'k list" 'v
  | DeleteByKey "'k list"
  | DeleteByValue 'v
  | DeleteByValues "'v list"
  | Clear

fun mkm_apply ::
  "('k list \<Rightarrow> string) \<Rightarrow> ('k, 'v) operation \<Rightarrow> ('k, 'v) MultiKeyMap \<Rightarrow> ('k, 'v) MultiKeyMap" where
  "mkm_apply H (Set keys val) m = mkm_set H m keys val"
| "mkm_apply H (DeleteByKey keys) m = snd (mkm_deleteByKey H m keys)"
| "mkm_apply H (DeleteByValue val) m = snd (mkm_deleteByValue m val)"
| "mkm_apply H (DeleteByValues vals) m = snd (mkm_deleteByValues m vals)"
| "mkm_apply H Clear m = mkm_clear m"

fun mkm_run ::
  "('k list \<Rightarrow> string) \<Rightarrow> ('k, 'v) operation list \<Rightarrow> ('k, 'v) MultiKeyMap \<Rightarrow> ('k, 'v) MultiKeyMap" where
  "mkm_run H [] m = m"
| "mkm_run H (op # ops) m = mkm_run H ops (mkm_apply H op m)"


section \<open>Iteration with forEachBreakable\<close>

text \<open>
  \<open>MultiValueMap.forEachBreakable\<close> runs \<open>Map.prototype.forEach\<close> on the map itself and hands
  \<open>this\<close> to the callback, so the callback can modify the map that is being iterated. What
  the loop then does depends on how a \<open>Map\<close> keeps its entries: in a list of records in which
  \<open>delete\<close> and \<open>clear\<close> empty a record without removing it, \<open>set\<close> on a present key writes
  the value into its record, and \<open>set\<close> on a new key appends a record. \<open>forEach\<close> walks this
  list by index, skips the emptied records, and reads the length of the list again after
  every call, so that records appended by the callback are visited too.
\<close>

type_synonym ('k, 'v) mapdata = "('k \<times> 'v) option list"

definition mapdata_entries :: "('k, 'v) mapdata \<Rightarrow> ('k, 'v) jsmap" where
  "mapdata_entries d = concat (map (\<lambda>e. case e of None \<Rightarrow> [] | Some p \<Rightarrow> [p]) d)"

fun mapdata_set :: "'k \<Rightarrow> 'v \<Rightarrow> ('k, 'v) mapdata \<Rightarrow> ('k, 'v) mapdata" where
  "mapdata_set k v [] = [Some (k, v)]"
| "mapdata_set k v (None # d) = None # mapdata_set k v d"
| "mapdata_set k v (Some (k', v') # d) =
     (if k' = k then Some (k, v) # d else Some (k', v') # mapdata_set k v d)"

fun mapdata_delete :: "'k \<Rightarrow> ('k, 'v) mapdata \<Rightarrow> ('k, 'v) mapdata" where
  "mapdata_delete k [] = []"
| "mapdata_delete k (None # d) = None # mapdata_delete k d"
| "mapdata_delete k (Some (k', v') # d) =
     (if k' = k then None # d else Some (k', v') # mapdata_delete k d)"

definition mapdata_clear :: "('k, 'v) mapdata \<Rightarrow> ('k, 'v) mapdata" where
  "mapdata_clear d = map (\<lambda>e. None) d"








section \<open>Auxiliary definitions\<close>

text \<open>The two internal maps of a \<open>MultiKeyMap\<close> are in step when they list the same hashes
  in the same order and no hash occurs twice.\<close>

definition mkm_synced :: "('k, 'v) MultiKeyMap \<Rightarrow> bool" where
  "mkm_synced m = (map fst (keysMap m) = map fst (valueMap m) \<and> distinct (map fst (valueMap m)))"



text \<open>
  Example data. Key parts as objects with an identity (a number) and a content; two key
  parts are structurally equal when their contents are, and \<open>content_hash\<close> is a hash function
  that reads the contents only. \<open>palette\<close> is the \<open>MultiValueMap\<close> of the tests and \<open>roster\<close>
  the \<open>MultiKeyMap\<close> of the tests under the hash function \<open>js_join '',''\<close>. The callback
  \<open>skip_color\<close> returns false on the first entry of \<open>palette\<close> and collects the other keys;
  \<open>drop_position\<close> deletes the key \<open>position\<close> from the map it is handed; \<open>drop_row2\<close> returns
  false and deletes the key sequence \<open>[row2, col2]\<close>.
\<close>

definition same_content :: "nat \<times> string \<Rightarrow> nat \<times> string \<Rightarrow> bool" where
  "same_content a b = (snd a = snd b)"

definition content_hash :: "(nat \<times> string) list \<Rightarrow> string" where
  "content_hash ks = js_join '','' (map snd ks)"

definition palette :: "(string, string) MultiValueMap" where
  "palette = [(''color'', [''red'', ''green'', ''blue'']),
              (''position'', [''top'', ''right'', ''bottom'', ''left''])]"






section \<open>The two internal maps stay in step\<close>

lemma jsmap_set_keys:
  "map fst (jsmap_set k v m) = (if k \<in> set (map fst m) then map fst m else map fst m @ [k])"
  by (induction m) force+

lemma jsmap_set_get: "jsmap_get (jsmap_set k v m) k = Some v"
  by (induction m) (auto simp: jsmap_get_def)

lemma jsmap_delete_keys:
  "map fst (snd (jsmap_delete k m)) = filter (\<lambda>x. x \<noteq> k) (map fst m)"
  by (induction m) (auto simp: jsmap_delete_def)

lemma mkm_synced_length:
  assumes "mkm_synced m"
  shows "length (keysMap m) = length (valueMap m)"
proof -
  from assms have "map fst (keysMap m) = map fst (valueMap m)"
    by (simp add: mkm_synced_def)
  then have "length (map fst (keysMap m)) = length (map fst (valueMap m))"
    by (rule arg_cong)
  then show ?thesis by simp
qed

lemma mkm_synced_empty: "mkm_synced mkm_empty"
  by (simp add: mkm_synced_def mkm_empty_def)

lemma mkm_synced_set: "mkm_synced m \<Longrightarrow> mkm_synced (mkm_set H m keys v)"
  by (simp add: mkm_synced_def mkm_set_def mvm_set_def jsmap_set_keys Let_def)

lemma mkm_synced_delete_both:
  "mkm_synced m \<Longrightarrow>
   mkm_synced \<lparr>keysMap = snd (mvm_deleteByKey (keysMap m) k),
               valueMap = snd (jsmap_delete k (valueMap m))\<rparr>"
  by (simp add: mkm_synced_def mvm_deleteByKey_def jsmap_delete_keys)

lemma mkm_synced_deleteByKey: "mkm_synced m \<Longrightarrow> mkm_synced (snd (mkm_deleteByKey H m keys))"
  using mkm_synced_delete_both [of m "H keys"]
  by (simp add: mkm_deleteByKey_def Let_def)

lemma mkm_synced_deleteByValue_loop:
  "mkm_synced m \<Longrightarrow> mkm_synced (snd (mkm_deleteByValue_loop val es r m))"
proof (induction es arbitrary: r m)
  case Nil
  then show ?case by simp
next
  case (Cons e es)
  obtain k v where e: "e = (k, v)" by (cases e)
  show ?case
    using Cons.IH [OF mkm_synced_delete_both [OF Cons.prems, of k]] Cons.IH [OF Cons.prems]
    by (simp add: e)
qed

lemma mkm_synced_deleteByValue: "mkm_synced m \<Longrightarrow> mkm_synced (snd (mkm_deleteByValue m val))"
  by (simp add: mkm_deleteByValue_def mkm_synced_deleteByValue_loop)

lemma mkm_synced_deleteByValues_loop:
  "mkm_synced m \<Longrightarrow> mkm_synced (snd (mkm_deleteByValues_loop vals r m))"
proof (induction vals arbitrary: r m)
  case Nil
  then show ?case by simp
next
  case (Cons val vals)
  show ?case
  proof (cases r)
    case True
    then show ?thesis using Cons.IH [OF Cons.prems] by simp
  next
    case False
    obtain d m' where dm: "mkm_deleteByValue m val = (d, m')" by (cases "mkm_deleteByValue m val")
    have "mkm_synced m'" using mkm_synced_deleteByValue [OF Cons.prems, of val] dm by simp
    then show ?thesis using Cons.IH False dm by simp
  qed
qed

lemma mkm_synced_deleteByValues: "mkm_synced m \<Longrightarrow> mkm_synced (snd (mkm_deleteByValues m vals))"
  by (simp add: mkm_deleteByValues_def mkm_synced_deleteByValues_loop)

lemma mkm_synced_clear: "mkm_synced (mkm_clear m)"
  by (simp add: mkm_synced_def mkm_clear_def mvm_clear_def)

lemma mkm_synced_apply: "mkm_synced m \<Longrightarrow> mkm_synced (mkm_apply H op m)"
  by (cases op)
     (simp_all add: mkm_synced_set mkm_synced_deleteByKey mkm_synced_deleteByValue
        mkm_synced_deleteByValues mkm_synced_clear)

lemma mkm_synced_run: "mkm_synced m \<Longrightarrow> mkm_synced (mkm_run H ops m)"
  by (induction ops arbitrary: m) (simp_all add: mkm_synced_apply)

lemma mkm_synced_forEach_set:
  "mkm_synced m \<Longrightarrow> mkm_synced (array_forEach (\<lambda>(keys, val) m. mkm_set H m keys val) entries m)"
  by (induction entries arbitrary: m) (auto simp: mkm_synced_set)

lemma mkm_synced_of: "mkm_synced (mkm_of H entries)"
  by (simp add: mkm_of_def mkm_synced_forEach_set mkm_synced_empty)

lemma mkm_synced_reachable: "mkm_synced (mkm_run H ops (mkm_of H entries))"
  by (simp add: mkm_synced_run mkm_synced_of)

text \<open>
  C1. In every state reached from a constructed map (from any entries, none included) by any
  sequence of \<open>set\<close>, \<open>deleteByKey\<close>, \<open>deleteByValue\<close>, \<open>deleteByValues\<close> and \<open>clear\<close>, the key
  store and the value store hold the same hashes, in the same order and each once, so that
  their sets of hashes are identical and their sizes are equal.
\<close>

theorem mkm_maps_synchronised:
  "(let s = mkm_run H ops (mkm_of H entries) in
      mvm_keys (keysMap s) = map fst (valueMap s)
      \<and> set (mvm_keys (keysMap s)) = set (map fst (valueMap s))
      \<and> distinct (mvm_keys (keysMap s))
      \<and> mvm_size (keysMap s) = jsmap_size (valueMap s))"
proof -
  define s where "s = mkm_run H ops (mkm_of H entries)"
  have inv: "mkm_synced s"
    unfolding s_def by (rule mkm_synced_reachable)
  have keys: "map fst (keysMap s) = map fst (valueMap s)"
    using inv by (simp add: mkm_synced_def)
  have dist: "distinct (map fst (valueMap s))"
    using inv by (simp add: mkm_synced_def)
  have sets: "set (map fst (keysMap s)) = set (map fst (valueMap s))"
    using keys by (rule arg_cong)
  have dist': "distinct (map fst (keysMap s))"
    using dist by (simp only: keys)
  have len: "length (keysMap s) = length (valueMap s)"
    by (rule mkm_synced_length [OF inv])
  have "mvm_keys (keysMap s) = map fst (valueMap s)
      \<and> set (mvm_keys (keysMap s)) = set (map fst (valueMap s))
      \<and> distinct (mvm_keys (keysMap s))
      \<and> mvm_size (keysMap s) = jsmap_size (valueMap s)"
    unfolding mvm_keys_def mvm_size_def jsmap_size_def
    using keys sets dist' len by blast
  then show ?thesis
    unfolding s_def Let_def .
qed


section \<open>Round trip of set and get\<close>

text \<open>
  C2. Let the hash function give structurally equal key sequences the same hash. Then for
  every map, every non-empty key sequence \<open>k\<close> and every value \<open>v\<close>, after \<open>set(k, v)\<close> the call
  \<open>get(k)\<close> gives \<open>v\<close>, and so does \<open>get(k')\<close> for every \<open>k'\<close> that is element by element
  structurally equal to \<open>k\<close>, whatever the identity of its parts.
\<close>

theorem mkm_set_get_roundtrip:
  assumes hasher: "\<And>a b. list_all2 same a b \<Longrightarrow> H a = H b"
    and nonempty: "k \<noteq> []"
    and equal: "list_all2 same k k'"
  shows "mkm_get H (mkm_set H m k v) k = Some v \<and> mkm_get H (mkm_set H m k v) k' = Some v"
proof -
  have k': "k' \<noteq> []" using nonempty equal by auto
  have "H k' = H k" using hasher [OF equal] by simp
  then show ?thesis
    using nonempty k' by (simp add: mkm_get_def mkm_set_def Let_def jsmap_set_get)
qed

text \<open>The round trip on the map of the tests, read back through key parts of other
  identities (witness of C2).\<close>

theorem mkm_set_get_roundtrip_witness:
  "[(1, ''row1''), (2, ''col1'')] \<noteq> ([] :: (nat \<times> string) list)
   \<and> list_all2 same_content [(1, ''row1''), (2, ''col1'')] [(3, ''row1''), (4, ''col1'')]
   \<and> mkm_get content_hash
        (mkm_set content_hash mkm_empty [(1, ''row1''), (2, ''col1'')] ''LiLei'')
        [(1, ''row1''), (2, ''col1'')] = Some ''LiLei''
   \<and> mkm_get content_hash
        (mkm_set content_hash mkm_empty [(1, ''row1''), (2, ''col1'')] ''LiLei'')
        [(3, ''row1''), (4, ''col1'')] = Some ''LiLei''"
proof -
  have hasher: "content_hash a = content_hash b" if "list_all2 same_content a b" for a b
  proof -
    from that have "map snd a = map snd b"
      by (induction rule: list_all2_induct) (simp_all add: same_content_def)
    then show ?thesis by (simp add: content_hash_def)
  qed
  have nonempty: "[(1, ''row1''), (2, ''col1'')] \<noteq> ([] :: (nat \<times> string) list)"
    by simp
  have equal: "list_all2 same_content [(1, ''row1''), (2, ''col1'')] [(3, ''row1''), (4, ''col1'')]"
    by (simp add: same_content_def)
  have res: "mkm_get content_hash
        (mkm_set content_hash mkm_empty [(1, ''row1''), (2, ''col1'')] ''LiLei'')
        [(1, ''row1''), (2, ''col1'')] = Some ''LiLei''
   \<and> mkm_get content_hash
        (mkm_set content_hash mkm_empty [(1, ''row1''), (2, ''col1'')] ''LiLei'')
        [(3, ''row1''), (4, ''col1'')] = Some ''LiLei''"
    by (rule mkm_set_get_roundtrip [of same_content]) (erule hasher, rule nonempty, rule equal)
  note res1 = res [THEN conjunct1]
  note res2 = res [THEN conjunct2]
  show ?thesis
    by (intro conjI) (fact nonempty equal res1 res2)+
qed


section \<open>Deleting from a MultiValueMap\<close>

text \<open>
  C3. \<open>deleteByValue\<close> is to remove every entry whose values contain the given value. On a
  map with two such entries the code removes the first and keeps the second: the call of
  \<open>delete\<close> for the second entry is the right operand of \<open>||\<close> whose left operand is already
  true.
\<close>

theorem mvm_deleteByValue_stops_after_first:
  "mvm_deleteByValue [(''color'', [''red'', ''green'']), (''shade'', [''red'', ''dark''])] ''red''
     = (True, [(''shade'', [''red'', ''dark''])])"
  by (simp add: mvm_deleteByValue_def mvm_size_def jsmap_size_def mvm_entries_def
      jsmap_delete_def jsmap_has_def)

text \<open>
  C4. \<open>deleteByKeys\<close> is to remove each of the given keys. With two keys that are both
  present the code removes the first and keeps the second, for the same reason; the second
  key is still present afterwards.
\<close>

theorem mvm_deleteByKeys_stops_after_first:
  "mvm_deleteByKeys palette [''color'', ''position'']
     = (True, [(''position'', [''top'', ''right'', ''bottom'', ''left''])])
   \<and> mvm_hasKey (snd (mvm_deleteByKeys palette [''color'', ''position''])) ''position''"
  by (simp add: mvm_deleteByKeys_def mvm_size_def jsmap_size_def palette_def
      jsmap_delete_def jsmap_has_def mvm_hasKey_def)


section \<open>Membership of a key sequence\<close>

text \<open>
  C5. \<open>hasKey\<close> is to hold exactly for the registered key sequences, in their order.
  Whatever the hash function, on the map holding \<open>[row1, col1]\<close> the code answers true for
  the permutation \<open>[col1, row1]\<close>, which is not registered; under a hash function that tells
  the two sequences apart, \<open>get\<close> of the permutation finds nothing in the same map.
\<close>

theorem mkm_hasKey_accepts_permutation:
  "mkm_hasKey (mkm_of H [([''row1'', ''col1''], ''LiLei'')]) [''col1'', ''row1'']
   \<and> [''col1'', ''row1''] \<noteq> [''row1'', ''col1'']
   \<and> mkm_get (js_join '','') (mkm_of (js_join '','') [([''row1'', ''col1''], ''LiLei'')])
         [''col1'', ''row1''] = None"
  by (simp add: mkm_hasKey_def mkm_of_def mkm_set_def mkm_empty_def mvm_set_def
      mvm_hasValue_def mvm_size_def jsmap_size_def Let_def mkm_get_def jsmap_get_def)


section \<open>Matching a candidate sequence against the stored sequences\<close>

text \<open>What the two loops of \<open>hasValue\<close> compute.\<close>

lemma mvm_hasValue_inner_iff:
  "mvm_hasValue_inner array vals exact result vs
     = (result \<and> (\<forall>v \<in> set vs. v \<in> set array \<and> (\<not> exact \<or> length array = length vals)))"
proof (induction vs arbitrary: result)
  case Nil
  show ?case by simp
next
  case (Cons v vs)
  show ?case
    unfolding mvm_hasValue_inner.simps Let_def Cons.IH
    by (cases result; cases exact; cases "v \<in> set array"; simp)
qed

lemma mvm_hasValue_inner_whole:
  assumes "vals \<noteq> []"
  shows "mvm_hasValue_inner array vals exact True vals
     = (set vals \<subseteq> set array \<and> (\<not> exact \<or> length array = length vals))"
proof -
  obtain v where "v \<in> set vals" using assms by (cases vals) auto
  then show ?thesis
    unfolding mvm_hasValue_inner_iff by blast
qed

lemma mvm_hasValue_outer_iff:
  "mvm_hasValue_outer vals exact arrays
     = (\<exists>array \<in> set arrays. mvm_hasValue_inner array vals exact True vals)"
  by (induction arrays) simp_all

lemma mvm_hasValue_iff:
  "mvm_hasValue m vals exact
     = (vals \<noteq> [] \<and> (\<exists>array \<in> set (mvm_values m).
          set vals \<subseteq> set array \<and> (\<not> exact \<or> length array = length vals)))"
proof (cases "vals = [] \<or> m = []")
  case True
  then show ?thesis
    by (auto simp: mvm_hasValue_def mvm_size_def jsmap_size_def mvm_values_def)
next
  case False
  then have "mvm_hasValue m vals exact = mvm_hasValue_outer vals exact (map snd m)"
    by (simp add: mvm_hasValue_def mvm_size_def jsmap_size_def)
  also have "\<dots> = (\<exists>array \<in> set (mvm_values m).
          set vals \<subseteq> set array \<and> (\<not> exact \<or> length array = length vals))"
    using False by (simp add: mvm_hasValue_outer_iff mvm_hasValue_inner_whole mvm_values_def)
  finally show ?thesis using False by simp
qed

text \<open>
  For a candidate without repeated elements, the test made with \<open>exact\<close> true (every
  candidate element included, equal lengths) is multiset equality with a stored sequence.
\<close>

lemma same_length_superset_distinct:
  assumes dist: "distinct vals" and sub: "set vals \<subseteq> set array"
    and len: "length array = length vals"
  shows "mset array = mset vals"
proof -
  have "card (set vals) = length vals" using dist by (rule distinct_card)
  moreover have "card (set vals) \<le> card (set array)" using sub by (simp add: card_mono)
  moreover have "card (set array) \<le> length array" by (rule card_length)
  ultimately have card: "card (set array) = length array" and same: "card (set vals) = card (set array)"
    using len by simp_all
  have "distinct array" using card by (rule card_distinct)
  moreover have "set vals = set array"
    using sub same by (intro card_subset_eq) simp_all
  ultimately show ?thesis
    using dist set_eq_iff_mset_eq_distinct [of array vals] by simp
qed

lemma mvm_hasValue_exact_distinct:
  assumes "distinct vals"
  shows "mvm_hasValue m vals True
     = (vals \<noteq> [] \<and> (\<exists>array \<in> set (mvm_values m). mset array = mset vals))"
proof -
  have "(set vals \<subseteq> set array \<and> length array = length vals) = (mset array = mset vals)"
    for array :: "'a list"
  proof
    assume a: "set vals \<subseteq> set array \<and> length array = length vals"
    show "mset array = mset vals"
      by (rule same_length_superset_distinct [OF assms a [THEN conjunct1] a [THEN conjunct2]])
  next
    assume eq: "mset array = mset vals"
    have s: "set array = set vals" using eq by (rule mset_eq_setD)
    have sub: "set vals \<subseteq> set array" using s by blast
    have len: "length array = length vals" using eq by (rule mset_eq_length)
    show "set vals \<subseteq> set array \<and> length array = length vals"
      using sub len by (rule conjI)
  qed
  then show ?thesis
    by (simp only: mvm_hasValue_iff simp_thms)
qed

text \<open>
  C6. With \<open>exact\<close> true, \<open>hasValue\<close> is to hold only when some stored sequence equals the
  candidate as a multiset. On the map holding \<open>[red, green]\<close> the code answers true for the
  candidate \<open>[red, red]\<close>, which is a different multiset: each of its elements is included
  in the stored sequence and the two lengths agree, and a repeated element is counted once
  for each repetition.
\<close>

theorem mvm_hasValue_exact_accepts_repeated:
  "mvm_hasValue [(''color'', [''red'', ''green''])] [''red'', ''red''] True
   \<and> mset [''red'', ''green''] \<noteq> mset [''red'', ''red'']"
  by (simp add: mvm_hasValue_def mvm_size_def jsmap_size_def)


section \<open>Empty key sequences\<close>

text \<open>
  C7. For every map and every value: \<open>get\<close> of the empty key sequence gives nothing,
  \<open>set\<close> of the empty key sequence leaves the whole map as it was, and \<open>deleteByKey\<close> with no
  key part returns false and leaves the whole map as it was.
\<close>

theorem mkm_empty_keys_ignored:
  "mkm_get H m [] = None
   \<and> mkm_set H m [] v = m
   \<and> mkm_deleteByKey H m [] = (False, m)"
  by (simp add: mkm_get_def mkm_set_def mkm_deleteByKey_def)


section \<open>Iteration that does not break\<close>

text \<open>
  The list of records and the list of entries give the same account of \<open>set\<close>, \<open>delete\<close> and
  \<open>clear\<close>: the entries of the records after each operation are what the operation on the
  list of entries gives.
\<close>

lemma mapdata_entries_set:
  "mapdata_entries (mapdata_set k v d) = jsmap_set k v (mapdata_entries d)"
  by (induction k v d rule: mapdata_set.induct) (simp_all add: mapdata_entries_def)

lemma filter_absent_key:
  "k \<notin> fst ` set m \<Longrightarrow> filter (\<lambda>e. fst e \<noteq> k) m = m"
  by (induction m) auto

lemma mapdata_entries_delete:
  "distinct (map fst (mapdata_entries d)) \<Longrightarrow>
   mapdata_entries (mapdata_delete k d) = snd (jsmap_delete k (mapdata_entries d))"
proof (induction k d rule: mapdata_delete.induct)
  case (1 k)
  show ?case by (simp add: mapdata_entries_def jsmap_delete_def)
next
  case (2 k d)
  then show ?case by (simp add: mapdata_entries_def jsmap_delete_def)
next
  case (3 k k' v' d)
  have tail: "distinct (map fst (mapdata_entries d))" and notin: "k' \<notin> fst ` set (mapdata_entries d)"
    using "3.prems" by (simp_all add: mapdata_entries_def)
  show ?case
  proof (cases "k' = k")
    case True
    then show ?thesis
      using notin filter_absent_key [of k "mapdata_entries d"]
      by (simp add: mapdata_entries_def jsmap_delete_def)
  next
    case False
    then show ?thesis
      using "3.IH" [OF False tail] by (simp add: mapdata_entries_def jsmap_delete_def)
  qed
qed

lemma mapdata_entries_clear: "mapdata_entries (mapdata_clear d) = []"
  by (induction d) (simp_all add: mapdata_entries_def mapdata_clear_def)















section \<open>String rendering\<close>

lemma mkm_toString_entries:
  "mkm_toString strK strV m
     = js_join '';''
         (map (\<lambda>(ks, v). ''['' @ js_join '','' (map strK ks) @ '']:'' @ strV v) (mkm_entries m))"
  by (simp add: mkm_toString_def mkm_iterator_def mkm_entry_toString_def)

lemma mkm_toString_scenario:
  assumes "H [''row1'', ''col1''] \<noteq> H [''row2'', ''col2'']"
  shows "mkm_toString (\<lambda>x. x) (\<lambda>x. x)
           (mkm_of H [([''row1'', ''col1''], ''LiLei''), ([''row2'', ''col2''], ''HanMeimei'')])
         = ''[row1,col1]:LiLei;[row2,col2]:HanMeimei''"
proof -
  have entries: "mkm_entries
           (mkm_of H [([''row1'', ''col1''], ''LiLei''), ([''row2'', ''col2''], ''HanMeimei'')])
        = [([''row1'', ''col1''], ''LiLei''), ([''row2'', ''col2''], ''HanMeimei'')]"
    using assms
    by (simp add: mkm_of_def mkm_set_def mkm_empty_def mvm_set_def mkm_entries_def
        jsmap_size_def mvm_get_def jsmap_get_def Let_def)
  show ?thesis
    unfolding mkm_toString_entries entries by simp
qed

text \<open>
  C9. \<open>toString\<close> renders every entry as its key parts joined by commas inside square
  brackets, a colon and the value, and joins the entries by semicolons in the order of
  \<open>entries()\<close>. For the map constructed from \<open>[row1, col1] \<mapsto> LiLei\<close> and
  \<open>[row2, col2] \<mapsto> HanMeimei\<close>, under a hash function that tells the two key sequences
  apart, the result is \<open>[row1,col1]:LiLei;[row2,col2]:HanMeimei\<close>.
\<close>

theorem mkm_toString_format:
  "mkm_toString strK strV m
     = js_join '';''
         (map (\<lambda>(ks, v). ''['' @ js_join '','' (map strK ks) @ '']:'' @ strV v) (mkm_entries m))
   \<and> (H [''row1'', ''col1''] \<noteq> H [''row2'', ''col2''] \<longrightarrow>
        mkm_toString (\<lambda>x. x) (\<lambda>x. x)
           (mkm_of H [([''row1'', ''col1''], ''LiLei''), ([''row2'', ''col2''], ''HanMeimei'')])
         = ''[row1,col1]:LiLei;[row2,col2]:HanMeimei'')"
  using mkm_toString_entries mkm_toString_scenario by blast

text \<open>The scenario under a concrete hash function that tells the two key sequences apart
  (witness of C9).\<close>

theorem mkm_toString_format_witness:
  "js_join '','' [''row1'', ''col1''] \<noteq> js_join '','' [''row2'', ''col2'']
   \<and> mkm_toString (\<lambda>x. x) (\<lambda>x. x)
           (mkm_of (js_join '','')
              [([''row1'', ''col1''], ''LiLei''), ([''row2'', ''col2''], ''HanMeimei'')])
         = ''[row1,col1]:LiLei;[row2,col2]:HanMeimei''"
proof -
  have distinct: "js_join '','' [''row1'', ''col1''] \<noteq> js_join '','' [''row2'', ''col2'']"
    by simp
  show ?thesis
    using distinct mkm_toString_format [of "\<lambda>x. x" "\<lambda>x. x" mkm_empty "js_join '',''"]
    by (intro conjI) simp_all
qed


section \<open>The variadic predicates without arguments or without entries\<close>

text \<open>The modelled \<open>hasAnyValues\<close> and \<open>hasAllValues\<close> of \<open>MultiValueMap\<close> give what the tests
  of the repository expect of them.\<close>

lemma mvm_hasAnyValues_tests:
  "\<not> mvm_hasAnyValues palette [[''red'', ''black''], [''green'', ''blue'']]
   \<and> mvm_hasAnyValues palette [[''top'', ''right''], [''top'', ''right'', ''bottom'', ''left'']]
   \<and> \<not> mvm_hasAllValues palette [[''red'', ''black''], [''red'', ''green'', ''blue'']]
   \<and> mvm_hasAllValues palette
        [[''red'', ''green'', ''blue''], [''top'', ''right'', ''bottom'', ''left'']]"
  by (simp add: palette_def mvm_hasValue_def mvm_size_def jsmap_size_def)







end
